theory Spec2Isabelle
  imports Main "HOL-Library.Sublist"
begin

section \<open>The Python import parser of emerge (\<^verbatim>\<open>emerge/languages/pyparser.py\<close>)\<close>

text \<open>
  The development embeds \<^verbatim>\<open>PythonParser\<close>: the keyword enum, the token mapping, the
  line-by-line import extraction with its pyparsing grammar, and the construction and
  registration of the file result. Python strings are \<^typ>\<open>string\<close>, lists are lists,
  the results dictionary is a map, raised exceptions are the left summand of a sum type.
  A character of the model is a Python character with a code point below 256; this covers
  every literal of the source, the no-break space U+00A0 of the token mapping included.
\<close>

subsection \<open>Python string primitives\<close>

text \<open>
  \<^verbatim>\<open>str.replace(old, new)\<close>: every non-overlapping occurrence of \<open>old\<close>, scanning from
  the left, is replaced by \<open>new\<close>; an empty \<open>old\<close> matches before every character and
  at the end. \<^verbatim>\<open>sub in s\<close> on strings is \<^const>\<open>sublist\<close>, \<^verbatim>\<open>s[:-1]\<close> is
  \<^const>\<open>butlast\<close> (the empty string stays empty in both).
\<close>

function str_replace :: "string \<Rightarrow> string \<Rightarrow> string \<Rightarrow> string" where
  "str_replace old new [] = (if old = [] then new else [])"
| "str_replace old new (c # cs) =
     (if old = [] then new @ c # str_replace old new cs
      else if prefix old (c # cs) then new @ str_replace old new (drop (length old) (c # cs))
      else c # str_replace old new cs)"
  by pat_completeness auto
termination
  by (relation "measure (\<lambda>(old, new, s). length s)") auto

subsection \<open>Keywords and the token mapping\<close>

text \<open>The values of the enum \<^verbatim>\<open>PythonParsingKeyword\<close>.\<close>

definition IMPORT :: string where "IMPORT = ''import''"
definition FROM :: string where "FROM = ''from''"
definition INLINE_COMMENT :: string where "INLINE_COMMENT = ''#''"
definition BLOCK_COMMENT :: string where "BLOCK_COMMENT = [CHR 0x22, CHR 0x22, CHR 0x22]"
definition NEWLINE :: string where "NEWLINE = [CHR 0x0A]"
definition EMPTY :: string where "EMPTY = []"
definition BLANK :: string where "BLANK = '' ''"

text \<open>
  \<^verbatim>\<open>self._token_mappings\<close>, in the insertion order of the dictionary literal (the order
  in which a Python dict is iterated). Every key is mapped to itself between two blanks,
  except the opening brace: its replacement in the source starts with the no-break space
  U+00A0, not with a blank.
\<close>

definition token_mappings :: "(string \<times> string) list" where
  "token_mappings =
     [('':'', '' : ''), ('';'', '' ; ''), (''{'', [CHR 0xA0, CHR ''{'', CHR 0x20]),
      (''}'', '' } ''),
      (''('', '' ( ''), ('')'', '' ) ''), (''['', '' [ ''), ('']'', '' ] ''),
      (''?'', '' ? ''), (''!'', '' ! ''), ('','', '' , ''), (''<'', '' < ''),
      (''>'', '' > ''), ([CHR 0x22], [CHR 0x20, CHR 0x22, CHR 0x20])]"

text \<open>\<^verbatim>\<open>parser_name\<close> returns the name of the enum member \<^verbatim>\<open>Parser.PYTHON_PARSER\<close>.\<close>

definition parser_name :: string where
  "parser_name = ''PYTHON_PARSER''"

subsection \<open>The inherited tokenizer and comment filter\<close>

text \<open>
  Modelled from the spec: \<^verbatim>\<open>ParsingMixin.preprocess_file_content_and_generate_token_list_by_mapping\<close>
  (\<^verbatim>\<open>emerge/languages/abstractparser.py\<close> is not among the sources). Section 4.1: apply
  each mapping replacement to the content, then split the result on whitespace, preserving
  newline characters as standalone tokens; token order is source order and nothing but
  whitespace is dropped. Whitespace is what Python splits on (\<^verbatim>\<open>str.isspace\<close>): below code
  point 256 these are the characters 0x09 to 0x0D, 0x1C to 0x1F, the blank, 0x85 and the
  no-break space 0xA0.
\<close>

definition is_whitespace :: "char \<Rightarrow> bool" where
  "is_whitespace c =
     (c \<in> set [CHR 0x09, CHR 0x0A, CHR 0x0B, CHR 0x0C, CHR 0x0D, CHR 0x1C, CHR 0x1D, CHR 0x1E,
               CHR 0x1F, CHR 0x20, CHR 0x85, CHR 0xA0])"

definition flush :: "string \<Rightarrow> string list" where
  "flush w = (if w = [] then [] else [w])"

fun split_keep_newlines :: "string \<Rightarrow> string \<Rightarrow> string list" where
  "split_keep_newlines w [] = flush w"
| "split_keep_newlines w (c # cs) =
     (if c = CHR 0x0A then flush w @ NEWLINE # split_keep_newlines [] cs
      else if is_whitespace c then flush w @ split_keep_newlines [] cs
      else split_keep_newlines (w @ [c]) cs)"

definition apply_mapping :: "(string \<times> string) list \<Rightarrow> string \<Rightarrow> string" where
  "apply_mapping mapping file_content =
     fold (\<lambda>(origin, mapped) content. str_replace origin mapped content) mapping file_content"

definition preprocess_file_content_and_generate_token_list_by_mapping ::
  "string \<Rightarrow> (string \<times> string) list \<Rightarrow> string list" where
  "preprocess_file_content_and_generate_token_list_by_mapping file_content mapping =
     split_keep_newlines [] (apply_mapping mapping file_content)"

text \<open>
  Modelled from the spec: \<^verbatim>\<open>ParsingMixin._filter_source_tokens_without_comments\<close> (also in
  the absent \<^verbatim>\<open>abstractparser.py\<close>). Section 4.2: scan the tokens in order; at the inline
  marker discard tokens through the next newline, the newline itself retained; at a
  block-comment start marker discard tokens until the closing marker, or to the end of the
  stream when there is none. Section 3: a token is classified by string equality. The
  caller hands the result to the tokenizer as file content, so the surviving tokens are
  returned as one string, separated by single blanks.
\<close>

datatype scan_state = Code | Inline_Comment | Block_Comment

fun filter_tokens :: "string \<Rightarrow> string \<Rightarrow> string \<Rightarrow> scan_state \<Rightarrow> string list \<Rightarrow> string list" where
  "filter_tokens il bs be st [] = []"
| "filter_tokens il bs be Code (t # ts) =
     (if t = il then filter_tokens il bs be Inline_Comment ts
      else if t = bs then filter_tokens il bs be Block_Comment ts
      else t # filter_tokens il bs be Code ts)"
| "filter_tokens il bs be Inline_Comment (t # ts) =
     (if t = NEWLINE then t # filter_tokens il bs be Code ts
      else filter_tokens il bs be Inline_Comment ts)"
| "filter_tokens il bs be Block_Comment (t # ts) =
     (if t = be then filter_tokens il bs be Code ts
      else filter_tokens il bs be Block_Comment ts)"

fun join_blank :: "string list \<Rightarrow> string" where
  "join_blank [] = []"
| "join_blank [t] = t"
| "join_blank (t # ts) = t @ BLANK @ join_blank ts"

definition filter_source_tokens_without_comments ::
  "string list \<Rightarrow> string \<Rightarrow> string \<Rightarrow> string \<Rightarrow> string" where
  "filter_source_tokens_without_comments list_of_words line_comment start_comment stop_comment =
     join_blank (filter_tokens line_comment start_comment stop_comment Code list_of_words)"

subsection \<open>The pyparsing grammar of an import line\<close>

text \<open>
  The grammar is built from three pyparsing elements, each of which first skips the
  default whitespace characters (blank, newline, tab, carriage return) and then matches
  at the position reached:
  \<^item> \<^verbatim>\<open>Keyword(k)\<close> matches the text \<open>k\<close> when the character after it, if any, is not
    an identifier character (\<^verbatim>\<open>alphanums + "_$"\<close>). Its second condition, that the
    character before it is not an identifier character, always holds where the grammar
    applies it: the match position is the start of the line or follows skipped whitespace.
  \<^item> \<^verbatim>\<open>Word(chars)\<close> matches the longest non-empty run of characters from \<open>chars\<close>.
  \<^item> \<^verbatim>\<open>Optional(FollowedBy(e))\<close> tries \<open>e\<close> as a lookahead; it consumes nothing, yields
    no token and succeeds whether or not \<open>e\<close> matches.
  A matcher returns the matched token and the rest of the line, or \<open>None\<close> where pyparsing
  raises \<^verbatim>\<open>ParseException\<close>. \<^verbatim>\<open>parseString\<close> expands tabs to blanks first; both are
  skipped as whitespace and neither belongs to a keyword or to the name characters, so the
  model reads the line as it is.
\<close>

definition alphanums :: string where
  "alphanums = ''abcdefghijklmnopqrstuvwxyzABCDEFGHIJKLMNOPQRSTUVWXYZ0123456789''"

definition pp_whitespace :: string where
  "pp_whitespace = [CHR 0x20, CHR 0x0A, CHR 0x09, CHR 0x0D]"

definition keyword_ident_chars :: string where
  "keyword_ident_chars = alphanums @ ''_$''"

definition pp_skip_whitespace :: "string \<Rightarrow> string" where
  "pp_skip_whitespace s = dropWhile (\<lambda>c. c \<in> set pp_whitespace) s"

definition pp_Keyword :: "string \<Rightarrow> string \<Rightarrow> (string \<times> string) option" where
  "pp_Keyword k s =
     (let t = pp_skip_whitespace s in
      if prefix k t \<and>
         (case drop (length k) t of [] \<Rightarrow> True | c # _ \<Rightarrow> c \<notin> set keyword_ident_chars)
      then Some (k, drop (length k) t) else None)"

definition pp_Word :: "string \<Rightarrow> string \<Rightarrow> (string \<times> string) option" where
  "pp_Word chars s =
     (let t = pp_skip_whitespace s; w = takeWhile (\<lambda>c. c \<in> set chars) t in
      if w = [] then None else Some (w, dropWhile (\<lambda>c. c \<in> set chars) t))"

definition pp_MatchFirst ::
  "(string \<Rightarrow> (string \<times> string) option) \<Rightarrow> (string \<Rightarrow> (string \<times> string) option) \<Rightarrow>
   string \<Rightarrow> (string \<times> string) option" where
  "pp_MatchFirst e1 e2 s = (case e1 s of Some r \<Rightarrow> Some r | None \<Rightarrow> e2 s)"

definition pp_Optional_FollowedBy ::
  "(string \<Rightarrow> (string \<times> string) option) \<Rightarrow> string \<Rightarrow> string option" where
  "pp_Optional_FollowedBy e s = (case e s of Some r \<Rightarrow> Some s | None \<Rightarrow> Some s)"

text \<open>
  Modelled from the spec: the values of \<^verbatim>\<open>CoreParsingKeyword.DOT\<close>, \<^verbatim>\<open>UNDERSCORE\<close>,
  \<^verbatim>\<open>DASH\<close> and \<^verbatim>\<open>SLASH\<close> (the enum is declared in the absent \<^verbatim>\<open>abstractparser.py\<close>).
  Section 4.4: the name token is drawn from the alphanumeric characters plus
  \<open>.\<close>, \<open>_\<close>, \<open>-\<close> and \<open>/\<close>.
\<close>

definition DOT :: string where "DOT = ''.''"
definition UNDERSCORE :: string where "UNDERSCORE = ''_''"
definition DASH :: string where "DASH = ''-''"
definition SLASH :: string where "SLASH = ''/''"

definition valid_name_chars :: string where
  "valid_name_chars = alphanums @ DOT @ UNDERSCORE @ DASH @ SLASH"

datatype error = ParseException | NotImplementedError string

text \<open>
  \<^verbatim>\<open>expression_to_match.parseString(line)\<close> followed by reading the result named
  \<^verbatim>\<open>IMPORT_ENTITY_NAME\<close>, which is the token of \<^verbatim>\<open>valid_name\<close>: the value is the
  dependency, or the exception that the caller catches.
\<close>

definition parseString :: "string \<Rightarrow> error + string" where
  "parseString line =
     (case pp_MatchFirst (pp_Keyword IMPORT) (pp_Keyword FROM) line of
        None \<Rightarrow> Inl ParseException
      | Some (keyword, rest) \<Rightarrow>
          (case pp_Word valid_name_chars rest of
             None \<Rightarrow> Inl ParseException
           | Some (import_entity_name, rest') \<Rightarrow>
               (case pp_Optional_FollowedBy (pp_Keyword IMPORT) rest' of
                  None \<Rightarrow> Inl ParseException
                | Some rest'' \<Rightarrow> Inr import_entity_name)))"

subsection \<open>Results, statistics and the analysis\<close>

text \<open>
  Modelled from the spec: \<^verbatim>\<open>Statistics\<close> and its \<^verbatim>\<open>increment\<close> (\<^verbatim>\<open>emerge/statistics.py\<close>
  is not among the sources). Section 3: two monotonically increasing counters, parse hits
  and parse misses; an increment adds one to the counter of the given key.
\<close>

datatype Key = PARSING_HITS | PARSING_MISSES

record Statistics =
  parsing_hits :: nat
  parsing_misses :: nat

fun increment :: "Key \<Rightarrow> Statistics \<Rightarrow> Statistics" where
  "increment PARSING_HITS st = st\<lparr>parsing_hits := parsing_hits st + 1\<rparr>"
| "increment PARSING_MISSES st = st\<lparr>parsing_misses := parsing_misses st + 1\<rparr>"

text \<open>
  The analysis object as far as the parser reads it: its source directory and its
  statistics. The result holds a reference to the same analysis it was created with, so
  \<^verbatim>\<open>result.analysis.statistics\<close> and \<^verbatim>\<open>analysis.statistics\<close> are one counter set, threaded
  through the model as part of the analysis.
\<close>

record Analysis =
  source_directory :: string
  statistics :: Statistics

text \<open>
  Modelled from the spec: the enum \<^verbatim>\<open>LanguageType\<close> (declared in the absent
  \<^verbatim>\<open>abstractparser.py\<close>). The source names its member \<^verbatim>\<open>C\<close>; \<open>PY\<close> stands for the tag of
  the Python language.
\<close>

datatype LanguageType = C | PY

text \<open>
  Modelled from the spec: \<^verbatim>\<open>FileResult\<close> and \<^verbatim>\<open>FileResult.create_file_result\<close>
  (\<^verbatim>\<open>emerge/results.py\<close> is not among the sources). Sections 3 and 4.6: the result is
  identified by a unique name, its path relative to the analysis root; it owns its token
  stream and its list of dependencies, which is empty at creation and only appended to.
\<close>

record FileResult =
  unique_name :: string
  scanned_file_name :: string
  absolute_name :: string
  display_name :: string
  "module_name" :: "string option"
  scanned_by :: string
  scanned_language :: LanguageType
  scanned_tokens :: "string list"
  scanned_import_dependencies :: "string list"

definition create_file_result ::
  "string \<Rightarrow> string \<Rightarrow> string \<Rightarrow> string \<Rightarrow> string option \<Rightarrow> string \<Rightarrow> LanguageType \<Rightarrow>
   string list \<Rightarrow> FileResult" where
  "create_file_result scanned_file_name' relative_file_path_to_analysis absolute_name'
     display_name' module_name' scanned_by' scanned_language' scanned_tokens' =
     \<lparr>unique_name = relative_file_path_to_analysis,
      scanned_file_name = scanned_file_name',
      absolute_name = absolute_name',
      display_name = display_name',
      module_name = module_name',
      scanned_by = scanned_by',
      scanned_language = scanned_language',
      scanned_tokens = scanned_tokens',
      scanned_import_dependencies = []\<rparr>"

text \<open>
  The methods that \<^verbatim>\<open>PythonParser\<close> inherits and whose bodies are not among the sources
  are parameters of the model: the tokenizer, the comment filter and
  \<^verbatim>\<open>_is_dependency_in_ignore_list\<close>. What is proved for every such record holds whatever
  the inherited methods compute.
\<close>

record ParsingMixin =
  mixin_preprocess :: "string \<Rightarrow> (string \<times> string) list \<Rightarrow> string list"
  mixin_filter_comments :: "string list \<Rightarrow> string \<Rightarrow> string \<Rightarrow> string \<Rightarrow> string"
  mixin_is_dependency_in_ignore_list :: "string \<Rightarrow> Analysis \<Rightarrow> bool"

text \<open>The inherited methods as the spec describes them, for a given ignore predicate.\<close>

definition spec_mixin :: "(string \<Rightarrow> Analysis \<Rightarrow> bool) \<Rightarrow> ParsingMixin" where
  "spec_mixin ignored =
     \<lparr>mixin_preprocess = preprocess_file_content_and_generate_token_list_by_mapping,
      mixin_filter_comments = filter_source_tokens_without_comments,
      mixin_is_dependency_in_ignore_list = ignored\<rparr>"

subsection \<open>Import extraction\<close>

text \<open>
  The first loop of \<^verbatim>\<open>_add_imports_to_result\<close>: words are appended to the line buffer, each
  followed by a blank; at a newline token the last character is cut off and the line is
  kept when it is not empty, has \<^verbatim>\<open>import\<close> as a substring and is not yet in the list.
  The source compares with \<^verbatim>\<open>is\<close>; on the one-character and empty strings compared here
  CPython's identity agrees with equality. Words after the last newline token are never
  flushed.
\<close>

fun source_import_lines_loop :: "string list \<Rightarrow> string \<Rightarrow> string list \<Rightarrow> string list" where
  "source_import_lines_loop source_import_lines line [] = source_import_lines"
| "source_import_lines_loop source_import_lines line (word # ws) =
     (if word \<noteq> NEWLINE
      then source_import_lines_loop source_import_lines (line @ word @ BLANK) ws
      else (let line' = butlast line in
            source_import_lines_loop
              (if line' \<noteq> EMPTY \<and> sublist IMPORT line' \<and> line' \<notin> set source_import_lines
               then source_import_lines @ [line'] else source_import_lines)
              EMPTY ws))"

definition source_import_lines :: "string list \<Rightarrow> string list" where
  "source_import_lines filtered_list_no_comments =
     source_import_lines_loop [] EMPTY filtered_list_no_comments"

text \<open>
  The body of the second loop, for one retained line: a parse failure is caught and counted
  as a miss; a match is counted as a hit and its dependency appended unless ignored.
\<close>

definition process_import_line ::
  "ParsingMixin \<Rightarrow> string \<Rightarrow> FileResult \<times> Analysis \<Rightarrow> FileResult \<times> Analysis" where
  "process_import_line M line = (\<lambda>(result, analysis).
     (case parseString line of
        Inl some_exception \<Rightarrow>
          (result, analysis\<lparr>statistics := increment PARSING_MISSES (statistics analysis)\<rparr>)
      | Inr dependency \<Rightarrow>
          (let analysis' = analysis\<lparr>statistics := increment PARSING_HITS (statistics analysis)\<rparr> in
           if mixin_is_dependency_in_ignore_list M dependency analysis'
           then (result, analysis')
           else (result\<lparr>scanned_import_dependencies :=
                          scanned_import_dependencies result @ [dependency]\<rparr>, analysis'))))"

definition add_imports_to_result ::
  "ParsingMixin \<Rightarrow> FileResult \<Rightarrow> Analysis \<Rightarrow> FileResult \<times> Analysis" where
  "add_imports_to_result M result analysis =
     (let list_of_words_with_newline_strings = scanned_tokens result;
          source_string_no_comments =
            mixin_filter_comments M list_of_words_with_newline_strings
              INLINE_COMMENT BLOCK_COMMENT BLOCK_COMMENT;
          filtered_list_no_comments = mixin_preprocess M source_string_no_comments token_mappings
      in fold (process_import_line M) (source_import_lines filtered_list_no_comments)
           (result, analysis))"

definition add_package_name_to_result :: "FileResult \<Rightarrow> FileResult" where
  "add_package_name_to_result result = result\<lparr>module_name := None\<rparr>"

subsection \<open>Building and registering the file result\<close>

text \<open>
  \<^verbatim>\<open>str(PosixPath(p).parent)\<close> of the standard library: the path is split at slashes,
  empty and \<open>.\<close> components are dropped, the root is \<open>//\<close> for exactly two leading slashes
  and \<open>/\<close> for any other number of them; the parent drops the last component, and a path
  with neither root nor components is written \<open>.\<close>.
\<close>

fun split_slash :: "string \<Rightarrow> string \<Rightarrow> string list" where
  "split_slash part [] = [part]"
| "split_slash part (c # cs) =
     (if c = CHR ''/'' then part # split_slash [] cs else split_slash (part @ [c]) cs)"

fun join_slash :: "string list \<Rightarrow> string" where
  "join_slash [] = []"
| "join_slash [p] = p"
| "join_slash (p # ps) = p @ ''/'' @ join_slash ps"

definition posix_root :: "string \<Rightarrow> string" where
  "posix_root p =
     (let n = length (takeWhile (\<lambda>c. c = CHR ''/'') p) in
      if n = 0 then [] else if n = 2 then ''//'' else ''/'')"

definition posix_parts :: "string \<Rightarrow> string list" where
  "posix_parts p = filter (\<lambda>x. x \<noteq> [] \<and> x \<noteq> ''.'') (split_slash [] p)"

definition PosixPath_parent :: "string \<Rightarrow> string" where
  "PosixPath_parent p =
     (let root = posix_root p; parts = butlast (posix_parts p) in
      if root = [] \<and> parts = [] then ''.'' else root @ join_slash parts)"

text \<open>
  \<^verbatim>\<open>generate_file_result_from_analysis\<close>: the results dictionary and the analysis are
  passed in and returned updated.
\<close>

definition generate_file_result_from_analysis ::
  "ParsingMixin \<Rightarrow> Analysis \<Rightarrow> (string \<rightharpoonup> FileResult) \<Rightarrow> string \<Rightarrow> string \<Rightarrow> string \<Rightarrow>
   (string \<rightharpoonup> FileResult) \<times> Analysis" where
  "generate_file_result_from_analysis M analysis results file_name full_file_path file_content =
     (let scanned_tokens' = mixin_preprocess M file_content token_mappings;
          parent_analysis_source_path = PosixPath_parent (source_directory analysis) @ ''/'';
          relative_file_path_to_analysis =
            str_replace parent_analysis_source_path [] full_file_path;
          file_result = create_file_result file_name relative_file_path_to_analysis
            full_file_path file_name (Some []) parser_name C scanned_tokens';
          file_result' = add_package_name_to_result file_result;
          (file_result'', analysis') = add_imports_to_result M file_result' analysis
      in (results(unique_name file_result'' \<mapsto> file_result''), analysis'))"

text \<open>The two operations that the parser does not support raise at once.\<close>

definition generate_entity_results_from_analysis :: "Analysis \<Rightarrow> error + unit" where
  "generate_entity_results_from_analysis analysis =
     Inl (NotImplementedError (''currently not implemented in '' @ parser_name))"

definition create_unique_entity_name :: "'entity \<Rightarrow> error + unit" where
  "create_unique_entity_name entity =
     Inl (NotImplementedError (''currently not implemented in '' @ parser_name))"

text \<open>
  The retained lines of a file under the inherited methods as the spec describes them: the
  file content is tokenized, comment-filtered, tokenized again and regrouped into lines.
\<close>

definition spec_import_lines :: "string \<Rightarrow> string list" where
  "spec_import_lines file_content =
     source_import_lines (preprocess_file_content_and_generate_token_list_by_mapping
       (filter_source_tokens_without_comments
          (preprocess_file_content_and_generate_token_list_by_mapping file_content token_mappings)
          INLINE_COMMENT BLOCK_COMMENT BLOCK_COMMENT) token_mappings)"

subsection \<open>Logical lines, as the spec words them\<close>

text \<open>
  The reference description of the Line Reconstructor (section 4.3), against which the
  loop of the source is compared: the token stream is cut at its newline tokens, the tokens
  after the last newline are left out, and each group is joined with single blanks. A line
  is relevant when it is not empty and has \<^verbatim>\<open>import\<close> as a substring; \<open>first_occurrences\<close>
  keeps the first copy of every element, in order.
\<close>

fun token_lines :: "string list \<Rightarrow> string list \<Rightarrow> string list list" where
  "token_lines current [] = []"
| "token_lines current (t # ts) =
     (if t = NEWLINE then current # token_lines [] ts else token_lines (current @ [t]) ts)"

definition logical_lines :: "string list \<Rightarrow> string list" where
  "logical_lines ts = map join_blank (token_lines [] ts)"

fun first_occurrences :: "'a list \<Rightarrow> 'a list" where
  "first_occurrences [] = []"
| "first_occurrences (x # xs) = x # filter (\<lambda>y. y \<noteq> x) (first_occurrences xs)"

definition relevant_line :: "string \<Rightarrow> bool" where
  "relevant_line line = (line \<noteq> EMPTY \<and> sublist IMPORT line)"

definition retain :: "string \<Rightarrow> string list \<Rightarrow> string list" where
  "retain line retained =
     (if relevant_line line \<and> line \<notin> set retained then retained @ [line] else retained)"

subsection \<open>The shape of tokens\<close>

text \<open>
  Notions for reasoning about the tokenizer: the characters that the token mapping pads,
  the character put in front of each (a no-break space for the opening brace, a blank
  otherwise), the padding of one character, words free of whitespace and of padded
  characters, and the three shapes a token of the tokenizer can have.
\<close>

definition padded_chars :: string where
  "padded_chars = '':;{}()[]?!,<>'' @ [CHR 0x22]"

definition left_pad :: "char \<Rightarrow> char" where
  "left_pad c = (if c = CHR ''{'' then CHR 0xA0 else CHR 0x20)"

definition pad :: "char \<Rightarrow> string" where
  "pad c = (if c \<in> set padded_chars then [left_pad c, c, CHR 0x20] else [c])"

definition plain :: "string \<Rightarrow> bool" where
  "plain w = (\<forall>c \<in> set w. \<not> is_whitespace c \<and> c \<notin> set padded_chars)"

definition good_token :: "string \<Rightarrow> bool" where
  "good_token t = (t = NEWLINE \<or> (\<exists>p \<in> set padded_chars. t = [p]) \<or> (t \<noteq> [] \<and> plain t))"

section \<open>Properties\<close>

subsection \<open>The result record through import extraction\<close>

text \<open>Import extraction only appends to the dependency list of the result.\<close>

lemma process_import_line_result:
  "\<exists>ds. fst (process_import_line M l (r, a)) =
     r\<lparr>scanned_import_dependencies := scanned_import_dependencies r @ ds\<rparr>"
proof (cases "parseString l")
  case (Inl e)
  then have "fst (process_import_line M l (r, a)) =
      r\<lparr>scanned_import_dependencies := scanned_import_dependencies r @ []\<rparr>"
    by (simp add: process_import_line_def)
  then show ?thesis by blast
next
  case (Inr d)
  show ?thesis
  proof (cases "mixin_is_dependency_in_ignore_list M d
      (a\<lparr>statistics := increment PARSING_HITS (statistics a)\<rparr>)")
    case True
    with Inr have "fst (process_import_line M l (r, a)) =
        r\<lparr>scanned_import_dependencies := scanned_import_dependencies r @ []\<rparr>"
      by (simp add: process_import_line_def Let_def)
    then show ?thesis by blast
  next
    case False
    with Inr have "fst (process_import_line M l (r, a)) =
        r\<lparr>scanned_import_dependencies := scanned_import_dependencies r @ [d]\<rparr>"
      by (simp add: process_import_line_def Let_def)
    then show ?thesis by blast
  qed
qed

lemma fold_process_import_line_result:
  "\<exists>ds. fst (fold (process_import_line M) ls (r, a)) =
     r\<lparr>scanned_import_dependencies := scanned_import_dependencies r @ ds\<rparr>"
proof (induction ls arbitrary: r a)
  case Nil
  have "fst (fold (process_import_line M) [] (r, a)) =
      r\<lparr>scanned_import_dependencies := scanned_import_dependencies r @ []\<rparr>" by simp
  then show ?case by blast
next
  case (Cons l ls)
  obtain r' a' where step: "process_import_line M l (r, a) = (r', a')"
    by (cases "process_import_line M l (r, a)")
  from process_import_line_result [of M l r a] step obtain ds1 where
    r': "r' = r\<lparr>scanned_import_dependencies := scanned_import_dependencies r @ ds1\<rparr>"
    by auto
  from Cons.IH [of r' a'] obtain ds2 where
    "fst (fold (process_import_line M) ls (r', a')) =
       r'\<lparr>scanned_import_dependencies := scanned_import_dependencies r' @ ds2\<rparr>" by blast
  with r' step have "fst (fold (process_import_line M) (l # ls) (r, a)) =
      r\<lparr>scanned_import_dependencies := scanned_import_dependencies r @ (ds1 @ ds2)\<rparr>"
    by simp
  then show ?case by blast
qed

lemma add_imports_to_result_fields:
  "\<exists>ds. fst (add_imports_to_result M r a) =
     r\<lparr>scanned_import_dependencies := scanned_import_dependencies r @ ds\<rparr>"
  unfolding add_imports_to_result_def Let_def by (rule fold_process_import_line_result)

lemma generate_file_result_registered:
  "fst (generate_file_result_from_analysis M analysis results file_name full_file_path file_content)
   = results(unique_name (fst (add_imports_to_result M
        (add_package_name_to_result (create_file_result file_name
          (str_replace (PosixPath_parent (source_directory analysis) @ ''/'') [] full_file_path)
          full_file_path file_name (Some []) parser_name C
          (mixin_preprocess M file_content token_mappings))) analysis)) \<mapsto>
      fst (add_imports_to_result M
        (add_package_name_to_result (create_file_result file_name
          (str_replace (PosixPath_parent (source_directory analysis) @ ''/'') [] full_file_path)
          full_file_path file_name (Some []) parser_name C
          (mixin_preprocess M file_content token_mappings))) analysis))"
  by (simp add: generate_file_result_from_analysis_def Let_def split: prod.splits)

lemma registered_result_fields:
  "\<exists>ds. fst (generate_file_result_from_analysis M analysis results file_name full_file_path
             file_content)
     = results(str_replace (PosixPath_parent (source_directory analysis) @ ''/'') [] full_file_path
         \<mapsto> \<lparr>unique_name =
               str_replace (PosixPath_parent (source_directory analysis) @ ''/'') [] full_file_path,
             scanned_file_name = file_name, absolute_name = full_file_path,
             display_name = file_name, module_name = None, scanned_by = parser_name,
             scanned_language = C,
             scanned_tokens = mixin_preprocess M file_content token_mappings,
             scanned_import_dependencies = ds\<rparr>)"
proof -
  let ?r0 = "add_package_name_to_result (create_file_result file_name
          (str_replace (PosixPath_parent (source_directory analysis) @ ''/'') [] full_file_path)
          full_file_path file_name (Some []) parser_name C
          (mixin_preprocess M file_content token_mappings))"
  obtain ds where ds: "fst (add_imports_to_result M ?r0 analysis) =
      ?r0\<lparr>scanned_import_dependencies := scanned_import_dependencies ?r0 @ ds\<rparr>"
    using add_imports_to_result_fields by blast
  have "fst (generate_file_result_from_analysis M analysis results file_name full_file_path
             file_content)
     = results(str_replace (PosixPath_parent (source_directory analysis) @ ''/'') [] full_file_path
         \<mapsto> \<lparr>unique_name =
               str_replace (PosixPath_parent (source_directory analysis) @ ''/'') [] full_file_path,
             scanned_file_name = file_name, absolute_name = full_file_path,
             display_name = file_name, module_name = None, scanned_by = parser_name,
             scanned_language = C,
             scanned_tokens = mixin_preprocess M file_content token_mappings,
             scanned_import_dependencies = ds\<rparr>)"
    unfolding generate_file_result_registered ds
    by (simp add: add_package_name_to_result_def create_file_result_def)
  then show ?thesis by blast
qed

subsection \<open>Unsupported operations\<close>

text \<open>
  C6: entity-level extraction and unique-entity naming fail at once, for every argument,
  with \<^verbatim>\<open>NotImplementedError\<close> and the message naming the parser; they never return a
  value, and the error differs from the parse failure of a line.
\<close>

theorem not_implemented_operations:
  "generate_entity_results_from_analysis analysis =
     Inl (NotImplementedError ''currently not implemented in PYTHON_PARSER'')
   \<and> create_unique_entity_name entity =
     Inl (NotImplementedError ''currently not implemented in PYTHON_PARSER'')
   \<and> (\<nexists>v. generate_entity_results_from_analysis analysis = Inr v)
   \<and> (\<nexists>v. create_unique_entity_name entity = Inr v)
   \<and> generate_entity_results_from_analysis analysis \<noteq> Inl ParseException
   \<and> create_unique_entity_name entity \<noteq> Inl ParseException"
  by (simp add: generate_entity_results_from_analysis_def create_unique_entity_name_def
      parser_name_def)

subsection \<open>The registered file result\<close>

text \<open>
  C8: the token stream of the registered result is the tokenizer's output on the whole
  file content, and import extraction, which filters and regroups a stream of its own,
  returns the result with the stored stream unchanged.
\<close>

theorem stored_token_stream:
  "(let key = str_replace (PosixPath_parent (source_directory analysis) @ ''/'') [] full_file_path;
        out = generate_file_result_from_analysis M analysis results file_name full_file_path
                file_content
    in map_option scanned_tokens (fst out key) =
         Some (mixin_preprocess M file_content token_mappings))
   \<and> scanned_tokens (fst (add_imports_to_result M result analysis)) = scanned_tokens result"
proof -
  obtain ds where "fst (generate_file_result_from_analysis M analysis results file_name
      full_file_path file_content)
     = results(str_replace (PosixPath_parent (source_directory analysis) @ ''/'') [] full_file_path
         \<mapsto> \<lparr>unique_name =
               str_replace (PosixPath_parent (source_directory analysis) @ ''/'') [] full_file_path,
             scanned_file_name = file_name, absolute_name = full_file_path,
             display_name = file_name, module_name = None, scanned_by = parser_name,
             scanned_language = C,
             scanned_tokens = mixin_preprocess M file_content token_mappings,
             scanned_import_dependencies = ds\<rparr>)"
    using registered_result_fields by blast
  then have first: "(let key = str_replace (PosixPath_parent (source_directory analysis) @ ''/'') []
          full_file_path;
        out = generate_file_result_from_analysis M analysis results file_name full_file_path
                file_content
    in map_option scanned_tokens (fst out key) =
         Some (mixin_preprocess M file_content token_mappings))"
    by (simp add: Let_def)
  obtain es where "fst (add_imports_to_result M result analysis) =
      result\<lparr>scanned_import_dependencies := scanned_import_dependencies result @ es\<rparr>"
    using add_imports_to_result_fields by blast
  then have "scanned_tokens (fst (add_imports_to_result M result analysis)) = scanned_tokens result"
    by simp
  with first show ?thesis by blast
qed

text \<open>
  C9 at paths in which the parent of the source directory occurs again: the unique name is
  computed with \<^verbatim>\<open>str.replace\<close>, which removes every occurrence of the parent and its
  slash, not only the leading one. With the source directory \<^verbatim>\<open>/app/src\<close> the file
  \<^verbatim>\<open>/app/src/app/models.py\<close> is registered under \<^verbatim>\<open>srcmodels.py\<close> and the entry of its
  relative path \<^verbatim>\<open>src/app/models.py\<close> is left as it was; the two files
  \<^verbatim>\<open>/app/src/app/xy.py\<close> and \<^verbatim>\<open>/app/src/app/x/app/y.py\<close> are both named \<^verbatim>\<open>srcxy.py\<close>, so
  registering the second replaces the first and the mapping gains one entry, not two.
  With the source directory \<^verbatim>\<open>/src\<close> the text searched for is \<^verbatim>\<open>//\<close>, and the file
  \<^verbatim>\<open>/src/pkg/a.py\<close> keeps its absolute path as its name.
\<close>

theorem unique_name_not_relative_path:
  "map_option absolute_name
     (fst (generate_file_result_from_analysis M
             \<lparr>source_directory = ''/app/src'', statistics = st\<rparr> results ''models.py''
             ''/app/src/app/models.py'' file_content) ''srcmodels.py'')
     = Some ''/app/src/app/models.py''
   \<and> fst (generate_file_result_from_analysis M
             \<lparr>source_directory = ''/app/src'', statistics = st\<rparr> results ''models.py''
             ''/app/src/app/models.py'' file_content) ''src/app/models.py''
     = results ''src/app/models.py''
   \<and> (let results1 = fst (generate_file_result_from_analysis M
             \<lparr>source_directory = ''/app/src'', statistics = st1\<rparr> results ''xy.py''
             ''/app/src/app/xy.py'' content1);
          results2 = fst (generate_file_result_from_analysis M
             \<lparr>source_directory = ''/app/src'', statistics = st2\<rparr> results1 ''y.py''
             ''/app/src/app/x/app/y.py'' content2)
      in map_option absolute_name (results1 ''srcxy.py'') = Some ''/app/src/app/xy.py''
         \<and> map_option absolute_name (results2 ''srcxy.py'') = Some ''/app/src/app/x/app/y.py''
         \<and> results2(''srcxy.py'' := None) = results(''srcxy.py'' := None))
   \<and> map_option unique_name
       (fst (generate_file_result_from_analysis M
               \<lparr>source_directory = ''/src'', statistics = st\<rparr> results ''a.py''
               ''/src/pkg/a.py'' file_content) ''/src/pkg/a.py'')
     = Some ''/src/pkg/a.py''"
proof -
  have k1: "str_replace (PosixPath_parent ''/app/src'' @ ''/'') [] ''/app/src/app/models.py''
      = ''srcmodels.py''" by code_simp
  have k2: "str_replace (PosixPath_parent ''/app/src'' @ ''/'') [] ''/app/src/app/xy.py''
      = ''srcxy.py''" by code_simp
  have k3: "str_replace (PosixPath_parent ''/app/src'' @ ''/'') [] ''/app/src/app/x/app/y.py''
      = ''srcxy.py''" by code_simp
  have k4: "str_replace (PosixPath_parent ''/src'' @ ''/'') [] ''/src/pkg/a.py''
      = ''/src/pkg/a.py''" by code_simp
  have sd: "source_directory \<lparr>source_directory = d, statistics = s\<rparr> = d" for d s
    by simp
  have ne: "''src/app/models.py'' \<noteq> ''srcmodels.py''" by simp
  obtain ds1 where r1: "fst (generate_file_result_from_analysis M
      \<lparr>source_directory = ''/app/src'', statistics = st\<rparr> results ''models.py''
      ''/app/src/app/models.py'' file_content)
    = results(''srcmodels.py'' \<mapsto> \<lparr>unique_name = ''srcmodels.py'',
        scanned_file_name = ''models.py'', absolute_name = ''/app/src/app/models.py'',
        display_name = ''models.py'', module_name = None, scanned_by = parser_name,
        scanned_language = C,
        scanned_tokens = mixin_preprocess M file_content token_mappings,
        scanned_import_dependencies = ds1\<rparr>)"
    using registered_result_fields [of M "\<lparr>source_directory = ''/app/src'', statistics = st\<rparr>"
        results "''models.py''" "''/app/src/app/models.py''" file_content]
    unfolding sd k1 by blast
  obtain ds2 where r2: "fst (generate_file_result_from_analysis M
      \<lparr>source_directory = ''/app/src'', statistics = st1\<rparr> results ''xy.py''
      ''/app/src/app/xy.py'' content1)
    = results(''srcxy.py'' \<mapsto> \<lparr>unique_name = ''srcxy.py'',
        scanned_file_name = ''xy.py'', absolute_name = ''/app/src/app/xy.py'',
        display_name = ''xy.py'', module_name = None, scanned_by = parser_name,
        scanned_language = C,
        scanned_tokens = mixin_preprocess M content1 token_mappings,
        scanned_import_dependencies = ds2\<rparr>)"
    using registered_result_fields [of M "\<lparr>source_directory = ''/app/src'', statistics = st1\<rparr>"
        results "''xy.py''" "''/app/src/app/xy.py''" content1]
    unfolding sd k2 by blast
  obtain ds3 where r3: "fst (generate_file_result_from_analysis M
      \<lparr>source_directory = ''/app/src'', statistics = st2\<rparr>
      (fst (generate_file_result_from_analysis M
         \<lparr>source_directory = ''/app/src'', statistics = st1\<rparr> results ''xy.py''
         ''/app/src/app/xy.py'' content1)) ''y.py'' ''/app/src/app/x/app/y.py'' content2)
    = (fst (generate_file_result_from_analysis M
         \<lparr>source_directory = ''/app/src'', statistics = st1\<rparr> results ''xy.py''
         ''/app/src/app/xy.py'' content1))(''srcxy.py'' \<mapsto> \<lparr>unique_name = ''srcxy.py'',
        scanned_file_name = ''y.py'', absolute_name = ''/app/src/app/x/app/y.py'',
        display_name = ''y.py'', module_name = None, scanned_by = parser_name,
        scanned_language = C,
        scanned_tokens = mixin_preprocess M content2 token_mappings,
        scanned_import_dependencies = ds3\<rparr>)"
    using registered_result_fields [of M "\<lparr>source_directory = ''/app/src'', statistics = st2\<rparr>"
        "fst (generate_file_result_from_analysis M
         \<lparr>source_directory = ''/app/src'', statistics = st1\<rparr> results ''xy.py''
         ''/app/src/app/xy.py'' content1)" "''y.py''" "''/app/src/app/x/app/y.py''" content2]
    unfolding sd k3 by blast
  obtain ds4 where r4: "fst (generate_file_result_from_analysis M
      \<lparr>source_directory = ''/src'', statistics = st\<rparr> results ''a.py''
      ''/src/pkg/a.py'' file_content)
    = results(''/src/pkg/a.py'' \<mapsto> \<lparr>unique_name = ''/src/pkg/a.py'',
        scanned_file_name = ''a.py'', absolute_name = ''/src/pkg/a.py'',
        display_name = ''a.py'', module_name = None, scanned_by = parser_name,
        scanned_language = C,
        scanned_tokens = mixin_preprocess M file_content token_mappings,
        scanned_import_dependencies = ds4\<rparr>)"
    using registered_result_fields [of M "\<lparr>source_directory = ''/src'', statistics = st\<rparr>"
        results "''a.py''" "''/src/pkg/a.py''" file_content]
    unfolding sd k4 by blast
  have a: "map_option absolute_name
     (fst (generate_file_result_from_analysis M
             \<lparr>source_directory = ''/app/src'', statistics = st\<rparr> results ''models.py''
             ''/app/src/app/models.py'' file_content) ''srcmodels.py'')
     = Some ''/app/src/app/models.py''"
    unfolding r1 by simp
  have b: "fst (generate_file_result_from_analysis M
             \<lparr>source_directory = ''/app/src'', statistics = st\<rparr> results ''models.py''
             ''/app/src/app/models.py'' file_content) ''src/app/models.py''
     = results ''src/app/models.py''"
    unfolding r1 using ne by simp
  have c: "(let results1 = fst (generate_file_result_from_analysis M
             \<lparr>source_directory = ''/app/src'', statistics = st1\<rparr> results ''xy.py''
             ''/app/src/app/xy.py'' content1);
          results2 = fst (generate_file_result_from_analysis M
             \<lparr>source_directory = ''/app/src'', statistics = st2\<rparr> results1 ''y.py''
             ''/app/src/app/x/app/y.py'' content2)
      in map_option absolute_name (results1 ''srcxy.py'') = Some ''/app/src/app/xy.py''
         \<and> map_option absolute_name (results2 ''srcxy.py'') = Some ''/app/src/app/x/app/y.py''
         \<and> results2(''srcxy.py'' := None) = results(''srcxy.py'' := None))"
    unfolding Let_def r3 unfolding r2 by simp
  have d: "map_option unique_name
       (fst (generate_file_result_from_analysis M
               \<lparr>source_directory = ''/src'', statistics = st\<rparr> results ''a.py''
               ''/src/pkg/a.py'' file_content) ''/src/pkg/a.py'')
     = Some ''/src/pkg/a.py''"
    unfolding r4 by simp
  from a b c d show ?thesis by blast
qed

text \<open>
  C10: the registered result carries the language tag \<open>C\<close>, which is not the tag of
  Python, and its module name is \<open>None\<close>.
\<close>

theorem language_tag_and_module_name:
  "(let key = str_replace (PosixPath_parent (source_directory analysis) @ ''/'') [] full_file_path;
        out = generate_file_result_from_analysis M analysis results file_name full_file_path
                file_content
    in map_option scanned_language (fst out key) = Some C
       \<and> map_option scanned_language (fst out key) \<noteq> Some PY
       \<and> map_option module_name (fst out key) = Some None)"
proof -
  obtain ds where "fst (generate_file_result_from_analysis M analysis results file_name
      full_file_path file_content)
     = results(str_replace (PosixPath_parent (source_directory analysis) @ ''/'') [] full_file_path
         \<mapsto> \<lparr>unique_name =
               str_replace (PosixPath_parent (source_directory analysis) @ ''/'') [] full_file_path,
             scanned_file_name = file_name, absolute_name = full_file_path,
             display_name = file_name, module_name = None, scanned_by = parser_name,
             scanned_language = C,
             scanned_tokens = mixin_preprocess M file_content token_mappings,
             scanned_import_dependencies = ds\<rparr>)"
    using registered_result_fields by blast
  then show ?thesis by (simp add: Let_def)
qed

subsection \<open>Scenarios under the spec's tokenizer and comment filter\<close>

lemma generate_file_result_spec_mixin:
  "generate_file_result_from_analysis (spec_mixin ignored) analysis results file_name
     full_file_path file_content =
   (case fold (process_import_line (spec_mixin ignored)) (spec_import_lines file_content)
      (\<lparr>unique_name =
          str_replace (PosixPath_parent (source_directory analysis) @ ''/'') [] full_file_path,
        scanned_file_name = file_name, absolute_name = full_file_path,
        display_name = file_name, module_name = None, scanned_by = parser_name,
        scanned_language = C,
        scanned_tokens =
          preprocess_file_content_and_generate_token_list_by_mapping file_content token_mappings,
        scanned_import_dependencies = []\<rparr>, analysis)
    of (r, a) \<Rightarrow> (results(unique_name r \<mapsto> r), a))"
  by (simp add: generate_file_result_from_analysis_def add_imports_to_result_def Let_def
      spec_mixin_def spec_import_lines_def add_package_name_to_result_def create_file_result_def)

lemma lines_testlib: "spec_import_lines (''import testlib'' @ NEWLINE) = [''import testlib'']"
  by code_simp
lemma parse_testlib: "parseString ''import testlib'' = Inr ''testlib''"
  by code_simp

subsection \<open>Hits, misses and the ignore list\<close>

text \<open>
  C3: when the grammar matches a retained line and the dependency is in the ignore list,
  the result is returned as it was (nothing is appended), the miss counter keeps its value
  and the hit counter grows by one. For the file \<^verbatim>\<open>import testlib\<close> and an ignore predicate
  that holds of \<^verbatim>\<open>testlib\<close>, the registered dependency list is empty, the misses are
  unchanged and the hits are one more.
\<close>

theorem ignored_dependency_counts_as_hit:
  "(parseString line = Inr dependency
    \<and> mixin_is_dependency_in_ignore_list M dependency
        (analysis\<lparr>statistics := increment PARSING_HITS (statistics analysis)\<rparr>)
    \<longrightarrow> (case process_import_line M line (result, analysis) of (result', analysis') \<Rightarrow>
          result' = result
          \<and> analysis' = analysis\<lparr>statistics := (statistics analysis)
               \<lparr>parsing_hits := parsing_hits (statistics analysis) + 1\<rparr>\<rparr>
          \<and> parsing_misses (statistics analysis') = parsing_misses (statistics analysis)
          \<and> parsing_hits (statistics analysis') = parsing_hits (statistics analysis) + 1))
   \<and> ((\<forall>a. ignored ''testlib'' a)
    \<longrightarrow> (case generate_file_result_from_analysis (spec_mixin ignored) analysis results file_name
               full_file_path (''import testlib'' @ NEWLINE) of (results', analysis') \<Rightarrow>
          map_option scanned_import_dependencies
            (results' (str_replace (PosixPath_parent (source_directory analysis) @ ''/'') []
               full_file_path)) = Some []
          \<and> parsing_misses (statistics analysis') = parsing_misses (statistics analysis)
          \<and> parsing_hits (statistics analysis') = parsing_hits (statistics analysis) + 1))"
proof (intro conjI impI)
  assume "parseString line = Inr dependency
    \<and> mixin_is_dependency_in_ignore_list M dependency
        (analysis\<lparr>statistics := increment PARSING_HITS (statistics analysis)\<rparr>)"
  then show "case process_import_line M line (result, analysis) of (result', analysis') \<Rightarrow>
          result' = result
          \<and> analysis' = analysis\<lparr>statistics := (statistics analysis)
               \<lparr>parsing_hits := parsing_hits (statistics analysis) + 1\<rparr>\<rparr>
          \<and> parsing_misses (statistics analysis') = parsing_misses (statistics analysis)
          \<and> parsing_hits (statistics analysis') = parsing_hits (statistics analysis) + 1"
    by (simp add: process_import_line_def Let_def)
next
  assume ign: "\<forall>a. ignored ''testlib'' a"
  show "case generate_file_result_from_analysis (spec_mixin ignored) analysis results file_name
               full_file_path (''import testlib'' @ NEWLINE) of (results', analysis') \<Rightarrow>
          map_option scanned_import_dependencies
            (results' (str_replace (PosixPath_parent (source_directory analysis) @ ''/'') []
               full_file_path)) = Some []
          \<and> parsing_misses (statistics analysis') = parsing_misses (statistics analysis)
          \<and> parsing_hits (statistics analysis') = parsing_hits (statistics analysis) + 1"
    unfolding generate_file_result_spec_mixin lines_testlib
    using ign by (simp add: process_import_line_def parse_testlib Let_def spec_mixin_def)
qed

theorem ignored_dependency_counts_as_hit_witness:
  "parseString ''import testlib'' = Inr ''testlib''
   \<and> process_import_line (spec_mixin (\<lambda>d a. d = ''testlib'')) ''import testlib''
       (\<lparr>unique_name = ''src/a.py'', scanned_file_name = ''a.py'', absolute_name = ''/p/src/a.py'',
         display_name = ''a.py'', module_name = None, scanned_by = parser_name,
         scanned_language = C, scanned_tokens = [''import'', ''testlib'', NEWLINE],
         scanned_import_dependencies = []\<rparr>,
        \<lparr>source_directory = ''/p/src'', statistics = \<lparr>parsing_hits = 4, parsing_misses = 2\<rparr>\<rparr>)
     = (\<lparr>unique_name = ''src/a.py'', scanned_file_name = ''a.py'', absolute_name = ''/p/src/a.py'',
         display_name = ''a.py'', module_name = None, scanned_by = parser_name,
         scanned_language = C, scanned_tokens = [''import'', ''testlib'', NEWLINE],
         scanned_import_dependencies = []\<rparr>,
        \<lparr>source_directory = ''/p/src'', statistics = \<lparr>parsing_hits = 5, parsing_misses = 2\<rparr>\<rparr>)
   \<and> statistics (snd (generate_file_result_from_analysis (spec_mixin (\<lambda>d a. d = ''testlib''))
        \<lparr>source_directory = ''/p/src'', statistics = \<lparr>parsing_hits = 4, parsing_misses = 2\<rparr>\<rparr>
        Map.empty ''a.py'' ''/p/src/a.py'' (''import testlib'' @ NEWLINE)))
     = \<lparr>parsing_hits = 5, parsing_misses = 2\<rparr>"
  using ignored_dependency_counts_as_hit [where line = "''import testlib''"
      and dependency = "''testlib''" and M = "spec_mixin (\<lambda>d a. d = ''testlib'')"
      and analysis = "\<lparr>source_directory = ''/p/src'',
        statistics = \<lparr>parsing_hits = 4, parsing_misses = 2\<rparr>\<rparr>"
      and result = "\<lparr>unique_name = ''src/a.py'', scanned_file_name = ''a.py'',
         absolute_name = ''/p/src/a.py'',
         display_name = ''a.py'', module_name = None, scanned_by = parser_name,
         scanned_language = C, scanned_tokens = [''import'', ''testlib'', NEWLINE],
         scanned_import_dependencies = []\<rparr>"
      and ignored = "\<lambda>d a. d = ''testlib''" and results = Map.empty
      and file_name = "''a.py''" and full_file_path = "''/p/src/a.py''"]
  by (auto simp add: parse_testlib spec_mixin_def split: prod.splits)




subsection \<open>The import grammar\<close>

lemma pp_skip_whitespace_split:
  "\<exists>ws. s = ws @ pp_skip_whitespace s \<and> set ws \<subseteq> set pp_whitespace"
proof -
  have "s = takeWhile (\<lambda>c. c \<in> set pp_whitespace) s @ pp_skip_whitespace s"
    by (simp add: pp_skip_whitespace_def)
  moreover have "set (takeWhile (\<lambda>c. c \<in> set pp_whitespace) s) \<subseteq> set pp_whitespace"
    by (auto dest: set_takeWhileD)
  ultimately show ?thesis by blast
qed

lemma pp_Keyword_Some:
  assumes "pp_Keyword k s = Some (k', r)"
  shows "k' = k \<and> pp_skip_whitespace s = k @ r"
proof -
  from assms have p: "prefix k (pp_skip_whitespace s)" and k: "k' = k"
    and r: "r = drop (length k) (pp_skip_whitespace s)"
    by (auto simp: pp_Keyword_def Let_def split: if_splits)
  from p obtain z where z: "pp_skip_whitespace s = k @ z" by (auto simp: prefix_def)
  with r have "r = z" by simp
  with z k show ?thesis by simp
qed

lemma pp_Word_Some:
  assumes "pp_Word chars s = Some (w, r)"
  shows "pp_skip_whitespace s = w @ r \<and> w \<noteq> [] \<and> set w \<subseteq> set chars
         \<and> (r = [] \<or> hd r \<notin> set chars)"
proof -
  let ?t = "pp_skip_whitespace s"
  from assms have w: "w = takeWhile (\<lambda>c. c \<in> set chars) ?t" and ne: "w \<noteq> []"
    and r: "r = dropWhile (\<lambda>c. c \<in> set chars) ?t"
    by (auto simp: pp_Word_def Let_def split: if_splits)
  have "?t = w @ r" by (simp add: w r)
  moreover have "set w \<subseteq> set chars" unfolding w by (auto dest: set_takeWhileD)
  moreover have "r = [] \<or> hd r \<notin> set chars"
    unfolding r using hd_dropWhile [of "\<lambda>c. c \<in> set chars" ?t] by blast
  ultimately show ?thesis using ne by blast
qed

lemma parseString_Inr:
  assumes "parseString line = Inr dependency"
  shows "\<exists>ws1 keyword ws2 rest. line = ws1 @ keyword @ ws2 @ dependency @ rest
           \<and> set ws1 \<subseteq> set pp_whitespace \<and> (keyword = IMPORT \<or> keyword = FROM)
           \<and> set ws2 \<subseteq> set pp_whitespace \<and> dependency \<noteq> []
           \<and> set dependency \<subseteq> set valid_name_chars
           \<and> (rest = [] \<or> hd rest \<notin> set valid_name_chars)"
proof -
  from assms obtain kw r1 where
    m: "pp_MatchFirst (pp_Keyword IMPORT) (pp_Keyword FROM) line = Some (kw, r1)"
    by (auto simp: parseString_def split: option.splits)
  with assms obtain r2 where w: "pp_Word valid_name_chars r1 = Some (dependency, r2)"
    by (auto simp: parseString_def split: option.splits)
  from m have "pp_Keyword IMPORT line = Some (kw, r1) \<or> pp_Keyword FROM line = Some (kw, r1)"
    by (auto simp: pp_MatchFirst_def split: option.splits)
  then have kw: "(kw = IMPORT \<or> kw = FROM) \<and> pp_skip_whitespace line = kw @ r1"
    using pp_Keyword_Some by blast
  obtain ws1 where ws1: "line = ws1 @ pp_skip_whitespace line" "set ws1 \<subseteq> set pp_whitespace"
    using pp_skip_whitespace_split by blast
  obtain ws2 where ws2: "r1 = ws2 @ pp_skip_whitespace r1" "set ws2 \<subseteq> set pp_whitespace"
    using pp_skip_whitespace_split by blast
  from pp_Word_Some [OF w] have d: "pp_skip_whitespace r1 = dependency @ r2"
    "dependency \<noteq> []" "set dependency \<subseteq> set valid_name_chars"
    "r2 = [] \<or> hd r2 \<notin> set valid_name_chars" by auto
  have "line = ws1 @ kw @ ws2 @ dependency @ r2"
    using ws1(1) kw ws2(1) d(1) by metis
  with ws1(2) ws2(2) kw d show ?thesis by blast
qed

lemma blank_not_valid: "CHR '' '' \<notin> set valid_name_chars"
  by code_simp

lemma blank_whitespace: "CHR '' '' \<in> set pp_whitespace"
  by code_simp

lemma valid_not_whitespace: "c \<in> set valid_name_chars \<Longrightarrow> c \<notin> set pp_whitespace"
  by (auto simp: valid_name_chars_def pp_whitespace_def alphanums_def DOT_def UNDERSCORE_def
      DASH_def SLASH_def)

lemma pp_Word_name:
  assumes "X \<noteq> []" and "set X \<subseteq> set valid_name_chars"
  shows "pp_Word valid_name_chars (BLANK @ X @ BLANK @ tl') = Some (X, BLANK @ tl')"
proof -
  from assms obtain x xs where X: "X = x # xs" by (cases X) auto
  with assms have "x \<notin> set pp_whitespace" using valid_not_whitespace by auto
  then have skip: "pp_skip_whitespace (BLANK @ X @ BLANK @ tl') = X @ BLANK @ tl'"
    using blank_whitespace by (simp add: pp_skip_whitespace_def BLANK_def X)
  have tw: "takeWhile (\<lambda>c. c \<in> set valid_name_chars) (X @ BLANK @ tl') = X"
    using assms(2) blank_not_valid by (simp add: subset_iff BLANK_def)
  have dw: "dropWhile (\<lambda>c. c \<in> set valid_name_chars) (X @ BLANK @ tl') = BLANK @ tl'"
    using assms(2) blank_not_valid by (simp add: subset_iff BLANK_def)
  show ?thesis using assms(1) by (simp add: pp_Word_def Let_def skip tw dw)
qed

lemma pp_Keyword_FROM_line:
  "pp_MatchFirst (pp_Keyword IMPORT) (pp_Keyword FROM) (FROM @ BLANK @ t) = Some (FROM, BLANK @ t)"
  by (simp add: pp_MatchFirst_def pp_Keyword_def pp_skip_whitespace_def pp_whitespace_def
      IMPORT_def FROM_def BLANK_def keyword_ident_chars_def alphanums_def)

lemma parseString_from_import:
  assumes "X \<noteq> []" and "set X \<subseteq> set valid_name_chars"
  shows "parseString (FROM @ BLANK @ X @ BLANK @ IMPORT @ BLANK @ Y) = Inr X"
  using pp_Word_name [OF assms, of "IMPORT @ BLANK @ Y"]
  by (simp add: parseString_def pp_Keyword_FROM_line pp_Optional_FollowedBy_def
      split: option.splits)


lemma lines_from_foo_bar:
  "spec_import_lines (''from foo.bar import baz'' @ NEWLINE) = [''from foo.bar import baz'']"
  by code_simp

lemma parse_from_foo_bar: "parseString ''from foo.bar import baz'' = Inr ''foo.bar''"
  by code_simp

text \<open>
  C1: when the grammar matches a line, the line is whitespace, the keyword \<^verbatim>\<open>import\<close> or
  \<^verbatim>\<open>from\<close>, whitespace, the dependency, and a rest that is empty or starts with a character
  outside the name characters; the dependency is a non-empty run of name characters and
  holds no blank, so the text after it, a following \<^verbatim>\<open>import\<close> keyword included, is never
  part of it. On a line of the form \<^verbatim>\<open>from X import Y\<close> with a name \<open>X\<close> the dependency is
  \<open>X\<close>, and the file \<^verbatim>\<open>from foo.bar import baz\<close> has the dependency list \<^verbatim>\<open>["foo.bar"]\<close>.
\<close>

theorem dependency_is_first_name_after_keyword:
  "(parseString line = Inr dependency
    \<longrightarrow> (\<exists>ws1 keyword ws2 rest. line = ws1 @ keyword @ ws2 @ dependency @ rest
           \<and> set ws1 \<subseteq> set pp_whitespace \<and> (keyword = IMPORT \<or> keyword = FROM)
           \<and> set ws2 \<subseteq> set pp_whitespace \<and> dependency \<noteq> []
           \<and> set dependency \<subseteq> set valid_name_chars
           \<and> (rest = [] \<or> hd rest \<notin> set valid_name_chars))
        \<and> CHR '' '' \<notin> set dependency)
   \<and> (X \<noteq> [] \<and> set X \<subseteq> set valid_name_chars
    \<longrightarrow> parseString (FROM @ BLANK @ X @ BLANK @ IMPORT @ BLANK @ Y) = Inr X)
   \<and> ((\<forall>a. \<not> ignored ''foo.bar'' a)
    \<longrightarrow> map_option scanned_import_dependencies
          (fst (generate_file_result_from_analysis (spec_mixin ignored) analysis results file_name
                  full_file_path (''from foo.bar import baz'' @ NEWLINE))
             (str_replace (PosixPath_parent (source_directory analysis) @ ''/'') []
                full_file_path)) = Some [''foo.bar''])"
proof (intro conjI impI)
  assume p: "parseString line = Inr dependency"
  from parseString_Inr [OF p]
  show "\<exists>ws1 keyword ws2 rest. line = ws1 @ keyword @ ws2 @ dependency @ rest
           \<and> set ws1 \<subseteq> set pp_whitespace \<and> (keyword = IMPORT \<or> keyword = FROM)
           \<and> set ws2 \<subseteq> set pp_whitespace \<and> dependency \<noteq> []
           \<and> set dependency \<subseteq> set valid_name_chars
           \<and> (rest = [] \<or> hd rest \<notin> set valid_name_chars)" .
  from parseString_Inr [OF p] have "set dependency \<subseteq> set valid_name_chars" by blast
  with blank_not_valid show "CHR '' '' \<notin> set dependency" by blast
next
  assume "X \<noteq> [] \<and> set X \<subseteq> set valid_name_chars"
  then show "parseString (FROM @ BLANK @ X @ BLANK @ IMPORT @ BLANK @ Y) = Inr X"
    using parseString_from_import by blast
next
  assume ign: "\<forall>a. \<not> ignored ''foo.bar'' a"
  show "map_option scanned_import_dependencies
          (fst (generate_file_result_from_analysis (spec_mixin ignored) analysis results file_name
                  full_file_path (''from foo.bar import baz'' @ NEWLINE))
             (str_replace (PosixPath_parent (source_directory analysis) @ ''/'') []
                full_file_path)) = Some [''foo.bar'']"
    unfolding generate_file_result_spec_mixin lines_from_foo_bar
    using ign by (simp add: process_import_line_def parse_from_foo_bar Let_def spec_mixin_def)
qed

theorem dependency_is_first_name_after_keyword_witness:
  "parseString ''from foo.bar import baz'' = Inr ''foo.bar''
   \<and> (\<exists>ws1 keyword ws2 rest.
         ''from foo.bar import baz'' = ws1 @ keyword @ ws2 @ ''foo.bar'' @ rest
         \<and> set ws1 \<subseteq> set pp_whitespace \<and> (keyword = IMPORT \<or> keyword = FROM)
         \<and> set ws2 \<subseteq> set pp_whitespace
         \<and> (rest = [] \<or> hd rest \<notin> set valid_name_chars))
   \<and> parseString (FROM @ BLANK @ ''foo.bar'' @ BLANK @ IMPORT @ BLANK @ ''baz'') = Inr ''foo.bar''
   \<and> map_option scanned_import_dependencies
        (fst (generate_file_result_from_analysis (spec_mixin (\<lambda>d a. False))
                \<lparr>source_directory = ''/p/src'',
                  statistics = \<lparr>parsing_hits = 0, parsing_misses = 0\<rparr>\<rparr>
                Map.empty ''a.py'' ''/p/src/a.py'' (''from foo.bar import baz'' @ NEWLINE))
           ''src/a.py'') = Some [''foo.bar'']"
proof -
  have v: "''foo.bar'' \<noteq> [] \<and> set ''foo.bar'' \<subseteq> set valid_name_chars" by code_simp
  have k: "str_replace (PosixPath_parent (source_directory
      \<lparr>source_directory = ''/p/src'', statistics = \<lparr>parsing_hits = 0, parsing_misses = 0\<rparr>\<rparr>)
      @ ''/'') [] ''/p/src/a.py'' = ''src/a.py''"
    by code_simp
  have i: "\<forall>a::Analysis. \<not> (\<lambda>d a. False) ''foo.bar'' a" by simp
  note T = dependency_is_first_name_after_keyword [where line = "''from foo.bar import baz''"
      and dependency = "''foo.bar''" and X = "''foo.bar''" and Y = "''baz''"
      and ignored = "\<lambda>d a. False"
      and analysis = "\<lparr>source_directory = ''/p/src'',
                  statistics = \<lparr>parsing_hits = 0, parsing_misses = 0\<rparr>\<rparr>"
      and results = Map.empty and file_name = "''a.py''" and full_file_path = "''/p/src/a.py''"]
  from T parse_from_foo_bar have "\<exists>ws1 keyword ws2 rest.
         ''from foo.bar import baz'' = ws1 @ keyword @ ws2 @ ''foo.bar'' @ rest
         \<and> set ws1 \<subseteq> set pp_whitespace \<and> (keyword = IMPORT \<or> keyword = FROM)
         \<and> set ws2 \<subseteq> set pp_whitespace
         \<and> (rest = [] \<or> hd rest \<notin> set valid_name_chars)"
    by blast
  moreover from T v
  have "parseString (FROM @ BLANK @ ''foo.bar'' @ BLANK @ IMPORT @ BLANK @ ''baz'') = Inr ''foo.bar''"
    by blast
  moreover from T i have "map_option scanned_import_dependencies
        (fst (generate_file_result_from_analysis (spec_mixin (\<lambda>d a. False))
                \<lparr>source_directory = ''/p/src'',
                  statistics = \<lparr>parsing_hits = 0, parsing_misses = 0\<rparr>\<rparr>
                Map.empty ''a.py'' ''/p/src/a.py'' (''from foo.bar import baz'' @ NEWLINE))
           ''src/a.py'') = Some [''foo.bar'']"
    unfolding k by blast
  ultimately show ?thesis using parse_from_foo_bar by blast
qed

subsection \<open>Line reconstruction\<close>

lemma buffer_join_blank:
  "ws \<noteq> [] \<Longrightarrow> concat (map (\<lambda>w. w @ BLANK) ws) = join_blank ws @ BLANK"
  by (induction ws rule: join_blank.induct) simp_all

lemma butlast_buffer: "butlast (concat (map (\<lambda>w. w @ BLANK) ws)) = join_blank ws"
proof (cases "ws = []")
  case True
  then show ?thesis by simp
next
  case False
  then have "concat (map (\<lambda>w. w @ BLANK) ws) = join_blank ws @ BLANK"
    by (rule buffer_join_blank)
  then show ?thesis by (simp add: BLANK_def)
qed

lemma source_import_lines_loop_fold:
  "source_import_lines_loop acc (concat (map (\<lambda>w. w @ BLANK) current)) ts =
     fold retain (map join_blank (token_lines current ts)) acc"
proof (induction ts arbitrary: acc current)
  case Nil
  show ?case by simp
next
  case (Cons t ts)
  show ?case
  proof (cases "t = NEWLINE")
    case True
    have "source_import_lines_loop acc (concat (map (\<lambda>w. w @ BLANK) current)) (t # ts) =
        source_import_lines_loop (retain (join_blank current) acc)
          (concat (map (\<lambda>w. w @ BLANK) [])) ts"
      using True by (simp add: Let_def butlast_buffer retain_def relevant_line_def EMPTY_def)
    also have "\<dots> = fold retain (map join_blank (token_lines [] ts))
        (retain (join_blank current) acc)"
      by (rule Cons.IH)
    finally show ?thesis using True by simp
  next
    case False
    have "source_import_lines_loop acc (concat (map (\<lambda>w. w @ BLANK) current)) (t # ts) =
        source_import_lines_loop acc (concat (map (\<lambda>w. w @ BLANK) (current @ [t]))) ts"
      using False by simp
    also have "\<dots> = fold retain (map join_blank (token_lines (current @ [t]) ts)) acc"
      by (rule Cons.IH)
    finally show ?thesis using False by simp
  qed
qed

lemma fold_retain:
  "fold retain ls acc =
     acc @ filter (\<lambda>x. x \<notin> set acc) (first_occurrences (filter relevant_line ls))"
proof (induction ls arbitrary: acc)
  case Nil
  show ?case by simp
next
  case (Cons l ls)
  show ?case
  proof (cases "relevant_line l")
    case False
    then show ?thesis using Cons.IH [of acc] by (simp add: retain_def)
  next
    case rel: True
    show ?thesis
    proof (cases "l \<in> set acc")
      case True
      have "filter (\<lambda>x. x \<notin> set acc) (filter (\<lambda>y. y \<noteq> l) zs) = filter (\<lambda>x. x \<notin> set acc) zs"
        for zs using True by (induction zs) auto
      then show ?thesis using rel True Cons.IH [of acc] by (simp add: retain_def)
    next
      case False
      have "filter (\<lambda>x. x \<notin> set (acc @ [l])) zs
          = filter (\<lambda>x. x \<notin> set acc) (filter (\<lambda>y. y \<noteq> l) zs)"
        for zs by (induction zs) auto
      then show ?thesis using rel False Cons.IH [of "acc @ [l]"] by (simp add: retain_def)
    qed
  qed
qed

lemma set_first_occurrences: "set (first_occurrences xs) = set xs"
  by (induction xs) auto

lemma distinct_first_occurrences: "distinct (first_occurrences xs)"
  by (induction xs) (auto simp: set_first_occurrences)

lemma source_import_lines_eq:
  "source_import_lines ts = first_occurrences (filter relevant_line (logical_lines ts))"
proof -
  have "source_import_lines ts =
      source_import_lines_loop [] (concat (map (\<lambda>w. w @ BLANK) [])) ts"
    by (simp add: source_import_lines_def EMPTY_def)
  also have "\<dots> = fold retain (map join_blank (token_lines [] ts)) []"
    by (rule source_import_lines_loop_fold)
  finally show ?thesis by (simp add: fold_retain logical_lines_def)
qed

text \<open>
  C2, as amended: the retained lines are the first occurrences, in order, of the
  reconstructed lines that are non-empty and have \<^verbatim>\<open>import\<close> as a substring; the list has
  no duplicates, and a line is in it exactly when it is such a reconstructed line.
\<close>

theorem retained_lines_by_substring:
  "source_import_lines ts =
     first_occurrences (filter (\<lambda>l. l \<noteq> EMPTY \<and> sublist IMPORT l) (logical_lines ts))
   \<and> distinct (source_import_lines ts)
   \<and> (\<forall>l. l \<in> set (source_import_lines ts) \<longleftrightarrow>
           l \<in> set (logical_lines ts) \<and> l \<noteq> EMPTY \<and> sublist IMPORT l)"
proof -
  have eq: "source_import_lines ts =
     first_occurrences (filter (\<lambda>l. l \<noteq> EMPTY \<and> sublist IMPORT l) (logical_lines ts))"
    using source_import_lines_eq [of ts] by (simp add: relevant_line_def [abs_def])
  have "distinct (source_import_lines ts)"
    unfolding eq by (rule distinct_first_occurrences)
  moreover have "\<forall>l. l \<in> set (source_import_lines ts) \<longleftrightarrow>
           l \<in> set (logical_lines ts) \<and> l \<noteq> EMPTY \<and> sublist IMPORT l"
    unfolding eq by (auto simp: set_first_occurrences)
  ultimately show ?thesis using eq by blast
qed

theorem retained_lines_by_substring_witness:
  "source_import_lines [''import'', ''os'', NEWLINE, ''x'', NEWLINE, NEWLINE, ''importxyz'',
      NEWLINE, ''import'', ''os'', NEWLINE, ''from'', ''a'', ''import'', ''b'']
     = [''import os'', ''importxyz'']
   \<and> logical_lines [''import'', ''os'', NEWLINE, ''x'', NEWLINE, NEWLINE, ''importxyz'',
      NEWLINE, ''import'', ''os'', NEWLINE, ''from'', ''a'', ''import'', ''b'']
     = [''import os'', ''x'', [], ''importxyz'', ''import os'']"
proof -
  have l: "logical_lines [''import'', ''os'', NEWLINE, ''x'', NEWLINE, NEWLINE, ''importxyz'',
      NEWLINE, ''import'', ''os'', NEWLINE, ''from'', ''a'', ''import'', ''b'']
     = [''import os'', ''x'', [], ''importxyz'', ''import os'']"
    by code_simp
  have f: "first_occurrences (filter (\<lambda>l. l \<noteq> EMPTY \<and> sublist IMPORT l)
      [''import os'', ''x'', [], ''importxyz'', ''import os'']) = [''import os'', ''importxyz'']"
    by code_simp
  show ?thesis
    using retained_lines_by_substring [of "[''import'', ''os'', NEWLINE, ''x'', NEWLINE, NEWLINE,
      ''importxyz'', NEWLINE, ''import'', ''os'', NEWLINE, ''from'', ''a'', ''import'', ''b'']"]
    unfolding l f by blast
qed

text \<open>
  C2, as stated, fails: the line \<^verbatim>\<open>importxyz broken\<close> is retained although \<^verbatim>\<open>import\<close> is
  none of its tokens.
\<close>

theorem retained_lines_whole_token_counterexample:
  "token_lines [] [''importxyz'', ''broken'', NEWLINE] = [[''importxyz'', ''broken'']]
   \<and> IMPORT \<notin> set [''importxyz'', ''broken'']
   \<and> source_import_lines [''importxyz'', ''broken'', NEWLINE] = [''importxyz broken'']"
  by code_simp

subsection \<open>The tokenizer\<close>

lemma str_replace_char:
  "str_replace [c] new s = concat (map (\<lambda>x. if x = c then new else [x]) s)"
  by (induction s) auto

lemma token_mappings_padded:
  "token_mappings = map (\<lambda>c. ([c], [left_pad c, c, CHR 0x20])) padded_chars"
  by (simp add: token_mappings_def padded_chars_def left_pad_def)

lemma apply_mapping_pad_chars:
  "distinct cs \<Longrightarrow> CHR 0x20 \<notin> set cs \<Longrightarrow> \<forall>x. l x \<notin> set cs \<Longrightarrow>
   apply_mapping (map (\<lambda>c. ([c], [l c, c, CHR 0x20])) cs) s =
     concat (map (\<lambda>x. if x \<in> set cs then [l x, x, CHR 0x20] else [x]) s)"
proof (induction cs arbitrary: s)
  case Nil
  show ?case by (simp add: apply_mapping_def)
next
  case (Cons c cs)
  then have d: "distinct cs" "CHR 0x20 \<notin> set cs" "\<forall>x. l x \<notin> set cs" "c \<notin> set cs"
    "c \<noteq> CHR 0x20" "\<forall>x. l x \<noteq> c" by auto
  have "apply_mapping (map (\<lambda>c. ([c], [l c, c, CHR 0x20])) (c # cs)) s =
      apply_mapping (map (\<lambda>c. ([c], [l c, c, CHR 0x20])) cs)
        (concat (map (\<lambda>x. if x = c then [l c, c, CHR 0x20] else [x]) s))"
    by (simp add: apply_mapping_def str_replace_char)
  also have "\<dots> = concat (map (\<lambda>x. if x \<in> set cs then [l x, x, CHR 0x20] else [x])
      (concat (map (\<lambda>x. if x = c then [l c, c, CHR 0x20] else [x]) s)))"
    using Cons.IH [OF d(1,2,3)] by simp
  also have "\<dots> = concat (map (\<lambda>x. if x \<in> set (c # cs) then [l x, x, CHR 0x20] else [x]) s)"
    using d by (induction s) auto
  finally show ?case .
qed

lemma left_pad_cases: "left_pad c = CHR 0xA0 \<or> left_pad c = CHR 0x20"
  by (simp add: left_pad_def)

lemma left_pad_whitespace: "is_whitespace (left_pad c) \<and> left_pad c \<noteq> CHR 0x0A"
  using left_pad_cases [of c] by (auto simp: is_whitespace_def)

lemma apply_mapping_pad: "apply_mapping token_mappings s = concat (map pad s)"
proof -
  have "CHR 0xA0 \<notin> set padded_chars" "CHR 0x20 \<notin> set padded_chars"
    by (simp_all add: padded_chars_def)
  then have "\<forall>x. left_pad x \<notin> set padded_chars"
    using left_pad_cases by metis
  moreover have "distinct padded_chars" "CHR 0x20 \<notin> set padded_chars"
    by (simp_all add: padded_chars_def)
  ultimately show ?thesis
    unfolding token_mappings_padded pad_def [abs_def] by (intro apply_mapping_pad_chars)
qed

lemma padded_not_whitespace: "c \<in> set padded_chars \<Longrightarrow> \<not> is_whitespace c \<and> c \<noteq> CHR 0x0A"
  by (auto simp: padded_chars_def is_whitespace_def)

lemma blank_is_whitespace: "is_whitespace (CHR 0x20) \<and> CHR 0x20 \<noteq> CHR 0x0A"
  by (simp add: is_whitespace_def)

text \<open>The tokenizer in one pass over the unpadded content.\<close>

lemma split_pad_Cons:
  "split_keep_newlines w (concat (map pad (c # s))) =
     (if c = CHR 0x0A then flush w @ NEWLINE # split_keep_newlines [] (concat (map pad s))
      else if is_whitespace c then flush w @ split_keep_newlines [] (concat (map pad s))
      else if c \<in> set padded_chars
        then flush w @ [c] # split_keep_newlines [] (concat (map pad s))
      else split_keep_newlines (w @ [c]) (concat (map pad s)))"
proof (cases "c \<in> set padded_chars")
  case True
  with padded_not_whitespace [OF True] blank_is_whitespace left_pad_whitespace [of c]
  show ?thesis
    by (simp add: pad_def flush_def)
next
  case False
  then show ?thesis by (simp add: pad_def)
qed

lemma split_pad_Nil: "split_keep_newlines w (concat (map pad [])) = flush w"
  by simp

lemma good_tokens_split:
  "plain w \<Longrightarrow> \<forall>t \<in> set (split_keep_newlines w (concat (map pad s))). good_token t"
proof (induction s arbitrary: w)
  case Nil
  then show ?case by (auto simp: flush_def good_token_def)
next
  case (Cons c s)
  have e: "plain []" by (simp add: plain_def)
  have fl: "\<forall>t \<in> set (flush w). good_token t"
    using Cons.prems by (auto simp: flush_def good_token_def)
  have nl: "good_token NEWLINE" by (simp add: good_token_def)
  show ?case
  proof (cases "c = CHR 0x0A \<or> is_whitespace c")
    case True
    then show ?thesis
      unfolding split_pad_Cons using fl nl Cons.IH [OF e] by auto
  next
    case False
    show ?thesis
    proof (cases "c \<in> set padded_chars")
      case True
      then have "good_token [c]" by (auto simp: good_token_def)
      then show ?thesis
        unfolding split_pad_Cons using fl False True Cons.IH [OF e] by auto
    next
      case np: False
      with False Cons.prems have "plain (w @ [c])" by (auto simp: plain_def)
      from Cons.IH [OF this] show ?thesis
        unfolding split_pad_Cons using False np by simp
    qed
  qed
qed

lemma good_tokens_preprocess:
  "\<forall>t \<in> set (preprocess_file_content_and_generate_token_list_by_mapping s token_mappings).
     good_token t"
  unfolding preprocess_file_content_and_generate_token_list_by_mapping_def apply_mapping_pad
  by (rule good_tokens_split) (simp add: plain_def)

lemma split_plain_append:
  "plain t \<Longrightarrow> split_keep_newlines w (concat (map pad (t @ u))) =
     split_keep_newlines (w @ t) (concat (map pad u))"
proof (induction t arbitrary: w)
  case Nil
  show ?case by simp
next
  case (Cons c t)
  then have c: "\<not> is_whitespace c" "c \<notin> set padded_chars" "plain t" by (auto simp: plain_def)
  then have n: "c \<noteq> CHR 0x0A" by (auto simp: is_whitespace_def)
  have "split_keep_newlines w (concat (map pad ((c # t) @ u))) =
      split_keep_newlines (w @ [c]) (concat (map pad (t @ u)))"
    using split_pad_Cons [of w c "t @ u"] c n by simp
  also have "\<dots> = split_keep_newlines ((w @ [c]) @ t) (concat (map pad u))"
    by (rule Cons.IH [OF c(3)])
  finally show ?case by simp
qed

lemma split_good_token:
  assumes "good_token t"
  shows "split_keep_newlines [] (concat (map pad (t @ CHR 0x20 # u))) =
           t # split_keep_newlines [] (concat (map pad u))"
    and "split_keep_newlines [] (concat (map pad t)) = [t]"
proof -
  have sp: "split_keep_newlines w (concat (map pad (CHR 0x20 # u))) =
      flush w @ split_keep_newlines [] (concat (map pad u))" for w u
    using split_pad_Cons [of w "CHR 0x20" u] blank_is_whitespace by simp
  consider (nl) "t = NEWLINE" | (p) p where "p \<in> set padded_chars" "t = [p]"
    | (w) "t \<noteq> []" "plain t"
    using assms by (auto simp: good_token_def)
  then have "split_keep_newlines [] (concat (map pad (t @ CHR 0x20 # u))) =
           t # split_keep_newlines [] (concat (map pad u))
      \<and> split_keep_newlines [] (concat (map pad t)) = [t]"
  proof cases
    case nl
    have "split_keep_newlines [] (concat (map pad (CHR 0x0A # CHR 0x20 # u))) =
        NEWLINE # split_keep_newlines [] (concat (map pad u))"
      using split_pad_Cons [of "[]" "CHR 0x0A" "CHR 0x20 # u"] sp [of "[]" u]
      by (simp add: flush_def)
    moreover have "split_keep_newlines [] (concat (map pad [CHR 0x0A])) = [NEWLINE]"
      using split_pad_Cons [of "[]" "CHR 0x0A" "[]"] by (simp add: flush_def)
    ultimately show ?thesis using nl by (simp add: NEWLINE_def)
  next
    case p
    from padded_not_whitespace [OF p(1)]
    have "split_keep_newlines [] (concat (map pad (p # CHR 0x20 # u))) =
        [p] # split_keep_newlines [] (concat (map pad u))"
      using split_pad_Cons [of "[]" p "CHR 0x20 # u"] sp [of "[]" u] p(1)
      by (simp add: flush_def)
    moreover from padded_not_whitespace [OF p(1)]
    have "split_keep_newlines [] (concat (map pad [p])) = [[p]]"
      using split_pad_Cons [of "[]" p "[]"] p(1) by (simp add: flush_def)
    ultimately show ?thesis using p(2) by simp
  next
    case w
    have "split_keep_newlines [] (concat (map pad (t @ CHR 0x20 # u))) =
        split_keep_newlines ([] @ t) (concat (map pad (CHR 0x20 # u)))"
      by (rule split_plain_append [OF w(2)])
    then have a: "split_keep_newlines [] (concat (map pad (t @ CHR 0x20 # u))) =
        t # split_keep_newlines [] (concat (map pad u))"
      using sp [of t u] w(1) by (simp add: flush_def)
    have "split_keep_newlines [] (concat (map pad (t @ []))) =
        split_keep_newlines ([] @ t) (concat (map pad []))"
      by (rule split_plain_append [OF w(2)])
    then have "split_keep_newlines [] (concat (map pad t)) = [t]"
      using w(1) by (simp add: flush_def)
    with a show ?thesis by simp
  qed
  then show "split_keep_newlines [] (concat (map pad (t @ CHR 0x20 # u))) =
           t # split_keep_newlines [] (concat (map pad u))"
    and "split_keep_newlines [] (concat (map pad t)) = [t]" by simp_all
qed

lemma retokenize_good_tokens:
  "\<forall>t \<in> set ts. good_token t \<Longrightarrow>
   preprocess_file_content_and_generate_token_list_by_mapping (join_blank ts) token_mappings = ts"
proof (induction ts rule: join_blank.induct)
  case 1
  show ?case
    by (simp add: preprocess_file_content_and_generate_token_list_by_mapping_def
        apply_mapping_pad flush_def)
next
  case (2 t)
  then show ?case
    using split_good_token(2) [of t]
    by (simp add: preprocess_file_content_and_generate_token_list_by_mapping_def
        apply_mapping_pad)
next
  case (3 t v va)
  then have g: "good_token t" and r: "\<forall>t \<in> set (v # va). good_token t" by auto
  from "3.IH" [OF r] split_good_token(1) [OF g, of "join_blank (v # va)"]
  show ?case
    by (simp add: preprocess_file_content_and_generate_token_list_by_mapping_def
        apply_mapping_pad BLANK_def)
qed

lemma set_filter_tokens: "set (filter_tokens il bs be st ts) \<subseteq> set ts"
  by (induction il bs be st ts rule: filter_tokens.induct) auto


text \<open>
  C7: tokenizing is idempotent. The tokens of any text, written out with single blanks
  between them and tokenized again, are the same tokens; in particular the stream that
  import extraction obtains by tokenizing the comment filter's output is exactly the
  sequence of tokens which the filter let through. The no-break space that the mapping
  puts before an opening brace is whitespace and is dropped like a blank: the tokens of
  \<^verbatim>\<open>x = {1}\<close> are \<^verbatim>\<open>x\<close>, \<^verbatim>\<open>=\<close>, \<^verbatim>\<open>{\<close>, \<^verbatim>\<open>1\<close>, \<^verbatim>\<open>}\<close>.
\<close>

theorem tokenizing_twice:
  "preprocess_file_content_and_generate_token_list_by_mapping
     (join_blank (preprocess_file_content_and_generate_token_list_by_mapping s token_mappings))
     token_mappings
   = preprocess_file_content_and_generate_token_list_by_mapping s token_mappings
   \<and> preprocess_file_content_and_generate_token_list_by_mapping
       (filter_source_tokens_without_comments
          (preprocess_file_content_and_generate_token_list_by_mapping file_content token_mappings)
          il bs be) token_mappings
     = filter_tokens il bs be Code
         (preprocess_file_content_and_generate_token_list_by_mapping file_content token_mappings)
   \<and> preprocess_file_content_and_generate_token_list_by_mapping ''x = {1}'' token_mappings
     = [''x'', ''='', ''{'', ''1'', ''}'']"
proof (intro conjI)
  show "preprocess_file_content_and_generate_token_list_by_mapping ''x = {1}'' token_mappings
     = [''x'', ''='', ''{'', ''1'', ''}'']"
    by code_simp
next
  show "preprocess_file_content_and_generate_token_list_by_mapping
     (join_blank (preprocess_file_content_and_generate_token_list_by_mapping s token_mappings))
     token_mappings
   = preprocess_file_content_and_generate_token_list_by_mapping s token_mappings"
    using good_tokens_preprocess by (rule retokenize_good_tokens)
next
  have "\<forall>t \<in> set (filter_tokens il bs be Code
      (preprocess_file_content_and_generate_token_list_by_mapping file_content token_mappings)).
      good_token t"
    using good_tokens_preprocess [of file_content] set_filter_tokens by blast
  then show "preprocess_file_content_and_generate_token_list_by_mapping
       (filter_source_tokens_without_comments
          (preprocess_file_content_and_generate_token_list_by_mapping file_content token_mappings)
          il bs be) token_mappings
     = filter_tokens il bs be Code
         (preprocess_file_content_and_generate_token_list_by_mapping file_content token_mappings)"
    unfolding filter_source_tokens_without_comments_def by (rule retokenize_good_tokens)
qed

subsection \<open>Comments\<close>

lemma good_token_not_block_comment: "good_token t \<Longrightarrow> t \<noteq> BLOCK_COMMENT"
proof
  assume g: "good_token t" and t: "t = BLOCK_COMMENT"
  have q: "CHR 0x22 \<in> set padded_chars" by (simp add: padded_chars_def)
  have "BLOCK_COMMENT \<noteq> NEWLINE" by (simp add: BLOCK_COMMENT_def NEWLINE_def)
  moreover have "BLOCK_COMMENT \<noteq> [p]" for p by (simp add: BLOCK_COMMENT_def)
  moreover have "\<not> plain BLOCK_COMMENT"
    using q by (simp add: plain_def BLOCK_COMMENT_def)
  ultimately show False using g unfolding t good_token_def by blast
qed

lemma lines_block_comment:
  "spec_import_lines (BLOCK_COMMENT @ NEWLINE @ ''import fake'' @ NEWLINE @ BLOCK_COMMENT
      @ NEWLINE @ ''import real'' @ NEWLINE) = [''import fake'', ''import real'']"
  by code_simp

lemma lines_inline_comment:
  "spec_import_lines (''# import fake'' @ NEWLINE @ ''import real'' @ NEWLINE) = [''import real'']"
  by code_simp

lemma parse_fake: "parseString ''import fake'' = Inr ''fake''"
  by code_simp

lemma parse_real: "parseString ''import real'' = Inr ''real''"
  by code_simp

text \<open>
  C5 at a file with a block comment: the tokenizer pads every double quote, so the marker
  of three double quotes is never a token of any file and the comment filter, which is
  handed that marker, finds no block comment. For the file whose lines are the marker,
  \<^verbatim>\<open>import fake\<close>, the marker and \<^verbatim>\<open>import real\<close>, the dependency list is
  \<^verbatim>\<open>["fake", "real"]\<close>: the import inside the block comment is extracted. The inline
  comment of the file \<^verbatim>\<open># import fake\<close>, \<^verbatim>\<open>import real\<close> is removed, and its dependency
  list is \<^verbatim>\<open>["real"]\<close>.
\<close>

theorem block_comment_import_extracted:
  "BLOCK_COMMENT \<notin> set (preprocess_file_content_and_generate_token_list_by_mapping file_content
      token_mappings)
   \<and> map_option scanned_import_dependencies
       (fst (generate_file_result_from_analysis (spec_mixin (\<lambda>d a. False)) analysis results
               file_name full_file_path
               (BLOCK_COMMENT @ NEWLINE @ ''import fake'' @ NEWLINE @ BLOCK_COMMENT @ NEWLINE
                  @ ''import real'' @ NEWLINE))
          (str_replace (PosixPath_parent (source_directory analysis) @ ''/'') [] full_file_path))
     = Some [''fake'', ''real'']
   \<and> map_option scanned_import_dependencies
       (fst (generate_file_result_from_analysis (spec_mixin (\<lambda>d a. False)) analysis results
               file_name full_file_path (''# import fake'' @ NEWLINE @ ''import real'' @ NEWLINE))
          (str_replace (PosixPath_parent (source_directory analysis) @ ''/'') [] full_file_path))
     = Some [''real'']"
proof (intro conjI)
  show "BLOCK_COMMENT \<notin> set (preprocess_file_content_and_generate_token_list_by_mapping
      file_content token_mappings)"
    using good_tokens_preprocess [of file_content] good_token_not_block_comment by blast
next
  show "map_option scanned_import_dependencies
       (fst (generate_file_result_from_analysis (spec_mixin (\<lambda>d a. False)) analysis results
               file_name full_file_path
               (BLOCK_COMMENT @ NEWLINE @ ''import fake'' @ NEWLINE @ BLOCK_COMMENT @ NEWLINE
                  @ ''import real'' @ NEWLINE))
          (str_replace (PosixPath_parent (source_directory analysis) @ ''/'') [] full_file_path))
     = Some [''fake'', ''real'']"
    unfolding generate_file_result_spec_mixin lines_block_comment
    by (simp add: process_import_line_def parse_fake parse_real Let_def spec_mixin_def)
next
  show "map_option scanned_import_dependencies
       (fst (generate_file_result_from_analysis (spec_mixin (\<lambda>d a. False)) analysis results
               file_name full_file_path (''# import fake'' @ NEWLINE @ ''import real'' @ NEWLINE))
          (str_replace (PosixPath_parent (source_directory analysis) @ ''/'') [] full_file_path))
     = Some [''real'']"
    unfolding generate_file_result_spec_mixin lines_inline_comment
    by (simp add: process_import_line_def parse_real Let_def spec_mixin_def)
qed

end
